theory Spec2Isabelle
  imports Main
begin

section \<open>Expression model\<close>

text \<open>
  Relay objects are reference counted heap objects and the pass compares them by
  address (\<open>pre != expr\<close>, \<open>call_node->op == dyn_reshape_op_\<close>).  Every expression
  node therefore carries the address it was allocated at; two expressions are the same
  object exactly when these addresses agree.  Operators are interned in the operator
  registry, so an operator handle is identified with the name it was registered under.
\<close>

type_synonym ref = nat

text \<open>The tensor held by a constant node: its shape, element type and flat contents.\<close>

record NDArray =
  shape :: "nat list"
  elem_type :: string
  elems :: "int list"

definition ndim :: "NDArray \<Rightarrow> nat" where
  "ndim a = length (shape a)"

record ReshapeAttrs =
  newshape :: "int list"
  reverse :: bool

record TileAttrs =
  reps :: "int list"

record TopKAttrs =
  k :: "int option"
  axis :: int
  ret_type :: string
  is_ascend :: bool
  dtype :: string

datatype Attrs =
    AttrsNull
  | AttrsReshape ReshapeAttrs
  | AttrsTile TileAttrs
  | AttrsTopK TopKAttrs
  | AttrsOther string

datatype RelayType = TensorType "nat list" string | OtherType string

datatype Expr =
    Other ref string
  | Constant ref NDArray
  | Call ref string "Expr list" Attrs "RelayType list"
  | Function ref "Expr list" Expr "RelayType option" "string list" Attrs

fun ref_of :: "Expr \<Rightarrow> ref" where
  "ref_of (Other r n) = r"
| "ref_of (Constant r a) = r"
| "ref_of (Call r f args attrs targs) = r"
| "ref_of (Function r ps b rt tps attrs) = r"

text \<open>Pointer equality of two object references.\<close>

definition same_ref :: "Expr \<Rightarrow> Expr \<Rightarrow> bool" where
  "same_ref a b = (ref_of a = ref_of b)"

text \<open>\<open>e.as<ConstantNode>()\<close>, \<open>attrs.as<TopKAttrs>()\<close> and \<open>e.as<FunctionNode>()\<close>:
  the payload when the object has that type, nothing (a null pointer) otherwise.\<close>

fun as_Constant :: "Expr \<Rightarrow> NDArray option" where
  "as_Constant (Constant r a) = Some a"
| "as_Constant e = None"

fun as_TopKAttrs :: "Attrs \<Rightarrow> TopKAttrs option" where
  "as_TopKAttrs (AttrsTopK p) = Some p"
| "as_TopKAttrs a = None"

fun is_Function :: "Expr \<Rightarrow> bool" where
  "is_Function (Function r ps b rt tps attrs) = True"
| "is_Function e = False"

fun fn_ret_type :: "Expr \<Rightarrow> RelayType option" where
  "fn_ret_type (Function r ps b rt tps attrs) = rt"
| "fn_ret_type e = None"

section \<open>Failures and the state a traversal threads\<close>

text \<open>
  A failed \<open>CHECK\<close> throws and unwinds the whole pass; it is the value \<open>Inl\<close> of the
  result.  The state holds the allocator (the next unused address), what has been
  written to standard output, and the memo table of the running mutator.
\<close>

datatype error =
    CheckFailed string
  | IndexError
  | KeyError
  | NullDeref
  | ReadPastEnd
  | PassError string

record state =
  next_ref :: ref
  out :: "int list"
  memo :: "ref \<rightharpoonup> Expr"

text \<open>Indexing an argument array; an index outside the array is a failed check.\<close>

definition arg_at :: "Expr list \<Rightarrow> nat \<Rightarrow> error + Expr" where
  "arg_at args i = (if i < length args then Inr (args ! i) else Inl IndexError)"

text \<open>The constructor \<open>Call(op, args, attrs, type_args)\<close> allocates a new node.\<close>

definition new_Call ::
  "string \<Rightarrow> Expr list \<Rightarrow> Attrs \<Rightarrow> RelayType list \<Rightarrow> state \<Rightarrow> Expr \<times> state" where
  "new_Call f args attrs targs s =
     (Call (next_ref s) f args attrs targs, s\<lparr>next_ref := Suc (next_ref s)\<rparr>)"

text \<open>The constructor \<open>Function(params, body, ret_type, type_params, attrs)\<close>.\<close>

definition new_Function ::
  "Expr list \<Rightarrow> Expr \<Rightarrow> RelayType option \<Rightarrow> string list \<Rightarrow> Attrs \<Rightarrow> state \<Rightarrow> Expr \<times> state" where
  "new_Function ps b rt tps attrs s =
     (Function (next_ref s) ps b rt tps attrs, s\<lparr>next_ref := Suc (next_ref s)\<rparr>)"

section \<open>Helpers of \<open>pattern_util.h\<close>\<close>

text \<open>
  Modelled from the spec: \<open>ToVector\<close> of \<open>pattern_util.h\<close>, which is not among the
  sources.  The spec describes a constant value as a tensor of scalar integers that the
  rules read element-wise; \<open>ToVector\<close> yields these elements in order.
\<close>

definition ToVector :: "NDArray \<Rightarrow> int list" where
  "ToVector a = elems a"

text \<open>
  Modelled from the spec: \<open>ToScalar\<close> of \<open>pattern_util.h\<close>, which is not among the
  sources.  \<open>ToScalar(a, i)\<close> reads element \<open>i\<close> of the tensor's contents.  A read
  beyond the contents has no defined meaning in the source language; here it is the
  failure \<open>ReadPastEnd\<close>.
\<close>

definition ToScalar :: "NDArray \<Rightarrow> nat \<Rightarrow> error + int" where
  "ToScalar a i = (if i < length (elems a) then Inr (elems a ! i) else Inl ReadPastEnd)"

section \<open>The rewrite hook \<open>DynamicToStaticMutator::Rewrite_\<close>\<close>

definition dyn_reshape_op :: string where "dyn_reshape_op = ''dyn.reshape''"
definition dyn_tile_op :: string where "dyn_tile_op = ''dyn.tile''"
definition dyn_topk_op :: string where "dyn_topk_op = ''dyn.topk''"

text \<open>The operators that have a rule in \<open>Rewrite_\<close>.\<close>

definition is_dynamic_target :: "string \<Rightarrow> bool" where
  "is_dynamic_target f = (f = dyn_reshape_op \<or> f = dyn_tile_op \<or> f = dyn_topk_op)"

definition Rewrite_CallNode :: "Expr \<Rightarrow> Expr \<Rightarrow> state \<Rightarrow> error + Expr \<times> state" where
  "Rewrite_CallNode pre post s =
    (case post of
       Call c f args attrs targs \<Rightarrow>
         if f = dyn_reshape_op then
           (case arg_at args 1 of
              Inl e \<Rightarrow> Inl e
            | Inr a1 \<Rightarrow>
                (case as_Constant a1 of
                   Some shape_data \<Rightarrow>
                     if ndim shape_data \<noteq> 1 then Inl (CheckFailed ''shape->data->ndim == 1'')
                     else
                       (case arg_at args 0 of
                          Inl e \<Rightarrow> Inl e
                        | Inr a0 \<Rightarrow>
                            Inr (new_Call ''reshape'' [a0]
                                   (AttrsReshape \<lparr>newshape = ToVector shape_data, reverse = False\<rparr>)
                                   [] s))
                 | None \<Rightarrow> Inr (post, s)))
         else if f = dyn_tile_op then
           (case arg_at args 1 of
              Inl e \<Rightarrow> Inl e
            | Inr a1 \<Rightarrow>
                (case as_Constant a1 of
                   Some reps_data \<Rightarrow>
                     if ndim reps_data \<noteq> 1 then Inl (CheckFailed ''reps->data->ndim == 1'')
                     else
                       (case arg_at args 0 of
                          Inl e \<Rightarrow> Inl e
                        | Inr a0 \<Rightarrow>
                            Inr (new_Call ''tile'' [a0]
                                   (AttrsTile \<lparr>reps = ToVector reps_data\<rparr>) [] s))
                 | None \<Rightarrow> Inr (post, s)))
         else if f = dyn_topk_op then
           (case arg_at args 1 of
              Inl e \<Rightarrow> Inl e
            | Inr a1 \<Rightarrow>
                (case as_Constant a1 of
                   Some k_data \<Rightarrow>
                     (case as_TopKAttrs attrs of
                        None \<Rightarrow> Inl (CheckFailed ''param'')
                      | Some param \<Rightarrow>
                          (case ToScalar k_data 0 of
                             Inl e \<Rightarrow> Inl e
                           | Inr v \<Rightarrow>
                               (let s1 = s\<lparr>out := out s @ [v]\<rparr> in
                                case arg_at args 0 of
                                  Inl e \<Rightarrow> Inl e
                                | Inr a0 \<Rightarrow>
                                    Inr (new_Call ''topk'' [a0]
                                           (AttrsTopK \<lparr>k = Some v, axis = axis param,
                                              ret_type = ret_type param,
                                              is_ascend = is_ascend param,
                                              dtype = dtype param\<rparr>)
                                           [] s1))))
                 | None \<Rightarrow> Inr (post, s)))
         else Inr (post, s)
     | _ \<Rightarrow> Inl NullDeref)"

section \<open>The traversal\<close>

text \<open>
  Modelled from the spec: the base class \<open>MixedModeMutator\<close> (\<open>expr_functor.h\<close>), which
  is not among the sources.  The spec describes it as a memoised post-order rewrite:
  a node already in the memo table yields its recorded result; otherwise the children
  are rewritten first, the node is rebuilt only when a child changed (by address), the
  hook \<open>Rewrite_\<close> is invoked on every call node with the call before and after its
  children were rewritten, and the result is recorded.  Constants and opaque nodes
  pass through.

  \<open>DispatchVisitExpr\<close> is the override of lines 78 to 84: it runs the base class's
  dispatch and, when the result is a function, returns a newly constructed function
  with the same parameters, body, type parameters and attributes and no return type.
\<close>

fun VisitExpr :: "Expr \<Rightarrow> state \<Rightarrow> error + Expr \<times> state"
and DispatchVisitExpr :: "Expr \<Rightarrow> state \<Rightarrow> error + Expr \<times> state"
and MixedModeMutator_DispatchVisitExpr :: "Expr \<Rightarrow> state \<Rightarrow> error + Expr \<times> state"
and VisitList :: "Expr list \<Rightarrow> state \<Rightarrow> error + Expr list \<times> state"
where
  "VisitExpr e s =
     (case memo s (ref_of e) of
        Some r \<Rightarrow> Inr (r, s)
      | None \<Rightarrow>
          (case DispatchVisitExpr e s of
             Inl x \<Rightarrow> Inl x
           | Inr (r, s1) \<Rightarrow> Inr (r, s1\<lparr>memo := (memo s1)(ref_of e \<mapsto> r)\<rparr>)))"
| "DispatchVisitExpr e s =
     (case MixedModeMutator_DispatchVisitExpr e s of
        Inl x \<Rightarrow> Inl x
      | Inr (post, s1) \<Rightarrow>
          (case post of
             Function r ps b rt tps attrs \<Rightarrow> Inr (new_Function ps b None tps attrs s1)
           | _ \<Rightarrow> Inr (post, s1)))"
| "MixedModeMutator_DispatchVisitExpr (Other r n) s = Inr (Other r n, s)"
| "MixedModeMutator_DispatchVisitExpr (Constant r a) s = Inr (Constant r a, s)"
| "MixedModeMutator_DispatchVisitExpr (Call r f args attrs targs) s =
     (case VisitList args s of
        Inl x \<Rightarrow> Inl x
      | Inr (args', s1) \<Rightarrow>
          (case (if list_all2 same_ref args args' then (Call r f args attrs targs, s1)
                 else new_Call f args' attrs targs s1) of
             (post, s2) \<Rightarrow> Rewrite_CallNode (Call r f args attrs targs) post s2))"
| "MixedModeMutator_DispatchVisitExpr (Function r ps b rt tps attrs) s =
     (case VisitList ps s of
        Inl x \<Rightarrow> Inl x
      | Inr (ps', s1) \<Rightarrow>
          (case VisitExpr b s1 of
             Inl x \<Rightarrow> Inl x
           | Inr (b', s2) \<Rightarrow>
               if list_all2 same_ref ps ps' \<and> same_ref b b'
               then Inr (Function r ps b rt tps attrs, s2)
               else Inr (new_Function ps' b' rt tps attrs s2)))"
| "VisitList [] s = Inr ([], s)"
| "VisitList (e # es) s =
     (case VisitExpr e s of
        Inl x \<Rightarrow> Inl x
      | Inr (e', s1) \<Rightarrow>
          (case VisitList es s1 of
             Inl x \<Rightarrow> Inl x
           | Inr (es', s2) \<Rightarrow> Inr (e' # es', s2)))"

text \<open>\<open>DynamicToStaticMutator().Mutate(e)\<close>: a new mutator starts with an empty memo
  table, and the table is gone with the mutator when the traversal is over.\<close>

definition Mutate :: "Expr \<Rightarrow> state \<Rightarrow> error + Expr \<times> state" where
  "Mutate e s =
     (case VisitExpr e (s\<lparr>memo := Map.empty\<rparr>) of
        Inl x \<Rightarrow> Inl x
      | Inr (r, s1) \<Rightarrow> Inr (r, s1\<lparr>memo := Map.empty\<rparr>))"

section \<open>The driver \<open>DynamicToStatic\<close>\<close>

text \<open>
  A module maps global variables to functions; the list order is the order in which
  \<open>m->functions\<close> is iterated.  The passes \<open>InferType\<close> and \<open>FoldConstant\<close> are
  external: they are parameters, each taking a module to a module or failing.
\<close>

type_synonym IRModule = "(string \<times> Expr) list"

type_synonym Pass = "IRModule \<Rightarrow> state \<Rightarrow> error + IRModule \<times> state"

text \<open>Modelled from the spec: \<open>IRModule::Update\<close>, which is not among the sources, is
  the point update of one function by its identifier, all other entries kept.\<close>

fun Update :: "IRModule \<Rightarrow> string \<Rightarrow> Expr \<Rightarrow> IRModule" where
  "Update [] gv fn = [(gv, fn)]"
| "Update ((g, h) # m) gv fn = (if g = gv then (gv, fn) # m else (g, h) # Update m gv fn)"

text \<open>Lines 96 to 99: the map from each function (by address) to its global variable.\<close>

definition reverse_vars :: "IRModule \<Rightarrow> (ref \<rightharpoonup> string)" where
  "reverse_vars m = foldl (\<lambda>vars (gv, fn). vars(ref_of fn \<mapsto> gv)) Map.empty m"

text \<open>The local variables of the loop of lines 102 to 110.\<close>

record loop_vars =
  lv_pre :: Expr
  lv_expr :: Expr
  lv_mod :: IRModule
  lv_i :: nat
  lv_state :: state

text \<open>One pass through the loop body, lines 103 to 109.\<close>

definition loop_body :: "Pass \<Rightarrow> Pass \<Rightarrow> string \<Rightarrow> loop_vars \<Rightarrow> error + loop_vars" where
  "loop_body infer_type fold_const gv v =
     (case infer_type (lv_mod v) (lv_state v) of
        Inl x \<Rightarrow> Inl x
      | Inr (m1, s1) \<Rightarrow>
          (case fold_const m1 s1 of
             Inl x \<Rightarrow> Inl x
           | Inr (m2, s2) \<Rightarrow>
               (case map_of m2 gv of
                  None \<Rightarrow> Inl KeyError
                | Some fn \<Rightarrow>
                    (case Mutate fn s2 of
                       Inl x \<Rightarrow> Inl x
                     | Inr (e, s3) \<Rightarrow>
                         if is_Function e
                         then Inr \<lparr>lv_pre = lv_expr v, lv_expr = e, lv_mod = Update m2 gv e,
                                   lv_i = lv_i v + 1, lv_state = s3\<rparr>
                         else Inl (CheckFailed ''Downcast<BaseFunc>'')))))"

function DynamicToStatic_loop ::
  "Pass \<Rightarrow> Pass \<Rightarrow> string \<Rightarrow> loop_vars \<Rightarrow> error + loop_vars" where
  "DynamicToStatic_loop infer_type fold_const gv v =
     (case loop_body infer_type fold_const gv v of
        Inl x \<Rightarrow> Inl x
      | Inr v' \<Rightarrow>
          if \<not> same_ref (lv_pre v') (lv_expr v') \<and> lv_i v' < 1000
          then DynamicToStatic_loop infer_type fold_const gv v'
          else Inr v')"
  by pat_completeness auto
termination
  by (relation "measure (\<lambda>(infer_type, fold_const, gv, v). 1000 - lv_i v)")
     (auto simp: loop_body_def split: sum.splits option.splits if_splits prod.splits)

text \<open>Lines 91 to 112.  \<open>DynamicToStatic_vars\<close> yields the loop's variables at the exit,
  among them the round counter; \<open>DynamicToStatic\<close> yields what the source returns.\<close>

definition DynamicToStatic_vars ::
  "Pass \<Rightarrow> Pass \<Rightarrow> Expr \<Rightarrow> IRModule \<Rightarrow> state \<Rightarrow> error + loop_vars" where
  "DynamicToStatic_vars infer_type fold_const f m s =
     (case reverse_vars m (ref_of f) of
        None \<Rightarrow> Inl KeyError
      | Some gv \<Rightarrow>
          DynamicToStatic_loop infer_type fold_const gv
            \<lparr>lv_pre = f, lv_expr = f, lv_mod = m, lv_i = 0, lv_state = s\<rparr>)"

definition DynamicToStatic ::
  "Pass \<Rightarrow> Pass \<Rightarrow> Expr \<Rightarrow> IRModule \<Rightarrow> state \<Rightarrow> error + Expr \<times> state" where
  "DynamicToStatic infer_type fold_const f m s =
     (case DynamicToStatic_vars infer_type fold_const f m s of
        Inl x \<Rightarrow> Inl x
      | Inr v \<Rightarrow> Inr (lv_expr v, lv_state v))"

text \<open>
  The loop body repeated \<open>n\<close> times with no exit test in between.  It is not part of
  the program; the properties of the loop are stated against it.
\<close>

fun body_iterated :: "Pass \<Rightarrow> Pass \<Rightarrow> string \<Rightarrow> nat \<Rightarrow> loop_vars \<Rightarrow> error + loop_vars" where
  "body_iterated infer_type fold_const gv 0 v = Inr v"
| "body_iterated infer_type fold_const gv (Suc n) v =
     (case loop_body infer_type fold_const gv v of
        Inl x \<Rightarrow> Inl x
      | Inr v' \<Rightarrow> body_iterated infer_type fold_const gv n v')"

section \<open>Example inputs\<close>

text \<open>Passes that hand the module back as it is: inference and folding with nothing
  left to do.\<close>

definition pass_unchanged :: Pass where
  "pass_unchanged m s = Inr (m, s)"

text \<open>The function \<open>fn (x) { reshape(x, newshape=[2, 3]) }\<close> allocated at address \<open>r\<close>:
  no dynamic operator occurs in it and it has no declared return type.\<close>

definition specialized_fn :: "ref \<Rightarrow> Expr" where
  "specialized_fn r =
     Function r [Other 0 ''x'']
       (Call 1 ''reshape'' [Other 0 ''x''] (AttrsReshape \<lparr>newshape = [2, 3], reverse = False\<rparr>) [])
       None [] AttrsNull"

section \<open>The rules\<close>

lemma Mutate_Function_ret_type:
  assumes "Mutate (Function fr ps b rt tps fattrs) s = Inr (e', s')"
  shows "is_Function e' \<and> fn_ret_type e' = None"
  using assms
  by (auto simp: Mutate_def new_Function_def split: sum.splits prod.splits if_splits Expr.splits)

lemma DispatchVisitExpr_Function_ret_type:
  assumes "DispatchVisitExpr (Function fr ps b rt tps fattrs) s = Inr (e', s')"
  shows "is_Function e' \<and> fn_ret_type e' = None"
  using assms
  by (auto simp: new_Function_def split: sum.splits prod.splits if_splits Expr.splits)

text \<open>
  Claim C1.  A call to \<open>dyn.reshape\<close> whose argument 1 is a constant of rank 1 is
  rewritten to a newly allocated call to \<open>reshape\<close> whose attributes hold the
  constant's elements as \<open>newshape\<close> and \<open>reverse = false\<close>, and whose only argument
  is the original argument 0; nothing is written and nothing else is allocated.  Every
  function node the traversal returns, the top-level one included, has no declared
  return type.
\<close>

theorem reshape_rule:
  assumes "1 < length args" and "args ! 1 = Constant r a" and "ndim a = 1"
  shows "Rewrite_CallNode pre (Call c dyn_reshape_op args attrs targs) s =
           Inr (Call (next_ref s) ''reshape'' [args ! 0]
                  (AttrsReshape \<lparr>newshape = elems a, reverse = False\<rparr>) [],
                s\<lparr>next_ref := Suc (next_ref s)\<rparr>)
         \<and> (\<forall>fr ps b rt tps fattrs s0 e' s'.
               Mutate (Function fr ps b rt tps fattrs) s0 = Inr (e', s')
               \<or> DispatchVisitExpr (Function fr ps b rt tps fattrs) s0 = Inr (e', s')
               \<longrightarrow> is_Function e' \<and> fn_ret_type e' = None)"
proof
  show "Rewrite_CallNode pre (Call c dyn_reshape_op args attrs targs) s =
           Inr (Call (next_ref s) ''reshape'' [args ! 0]
                  (AttrsReshape \<lparr>newshape = elems a, reverse = False\<rparr>) [],
                s\<lparr>next_ref := Suc (next_ref s)\<rparr>)"
    using assms
    by (auto simp: Rewrite_CallNode_def arg_at_def new_Call_def ToVector_def)
next
  show "\<forall>fr ps b rt tps fattrs s0 e' s'.
               Mutate (Function fr ps b rt tps fattrs) s0 = Inr (e', s')
               \<or> DispatchVisitExpr (Function fr ps b rt tps fattrs) s0 = Inr (e', s')
               \<longrightarrow> is_Function e' \<and> fn_ret_type e' = None"
    using Mutate_Function_ret_type DispatchVisitExpr_Function_ret_type by blast
qed

text \<open>The scenario of the spec: \<open>fn (x) { dyn.reshape(x, [2, 3]) }\<close> with a declared
  return type becomes \<open>fn (x) { reshape(x, newshape=[2, 3], reverse=false) }\<close> with
  none.\<close>

theorem reshape_rule_witness:
  "Rewrite_CallNode
     (Call 2 dyn_reshape_op
        [Other 0 ''x'', Constant 1 \<lparr>shape = [2], elem_type = ''int64'', elems = [2, 3]\<rparr>]
        AttrsNull [])
     (Call 2 dyn_reshape_op
        [Other 0 ''x'', Constant 1 \<lparr>shape = [2], elem_type = ''int64'', elems = [2, 3]\<rparr>]
        AttrsNull [])
     \<lparr>next_ref = 4, out = [], memo = Map.empty\<rparr>
   = Inr (Call 4 ''reshape'' [Other 0 ''x'']
            (AttrsReshape \<lparr>newshape = [2, 3], reverse = False\<rparr>) [],
          \<lparr>next_ref = 5, out = [], memo = Map.empty\<rparr>)
   \<and> Mutate
       (Function 3 [Other 0 ''x'']
          (Call 2 dyn_reshape_op
             [Other 0 ''x'', Constant 1 \<lparr>shape = [2], elem_type = ''int64'', elems = [2, 3]\<rparr>]
             AttrsNull [])
          (Some (TensorType [2, 3] ''float32'')) [] AttrsNull)
       \<lparr>next_ref = 4, out = [], memo = Map.empty\<rparr>
     = Inr (Function 6 [Other 0 ''x'']
              (Call 4 ''reshape'' [Other 0 ''x'']
                 (AttrsReshape \<lparr>newshape = [2, 3], reverse = False\<rparr>) [])
              None [] AttrsNull,
            \<lparr>next_ref = 7, out = [], memo = Map.empty\<rparr>)
   \<and> fn_ret_type
       (Function 6 [Other 0 ''x'']
              (Call 4 ''reshape'' [Other 0 ''x'']
                 (AttrsReshape \<lparr>newshape = [2, 3], reverse = False\<rparr>) [])
              None [] AttrsNull) = None"
proof -
  have m: "Mutate
       (Function 3 [Other 0 ''x'']
          (Call 2 dyn_reshape_op
             [Other 0 ''x'', Constant 1 \<lparr>shape = [2], elem_type = ''int64'', elems = [2, 3]\<rparr>]
             AttrsNull [])
          (Some (TensorType [2, 3] ''float32'')) [] AttrsNull)
       \<lparr>next_ref = 4, out = [], memo = Map.empty\<rparr>
     = Inr (Function 6 [Other 0 ''x'']
              (Call 4 ''reshape'' [Other 0 ''x'']
                 (AttrsReshape \<lparr>newshape = [2, 3], reverse = False\<rparr>) [])
              None [] AttrsNull,
            \<lparr>next_ref = 7, out = [], memo = Map.empty\<rparr>)"
    by (simp add: Mutate_def same_ref_def new_Function_def new_Call_def arg_at_def ndim_def
          ToVector_def Rewrite_CallNode_def dyn_reshape_op_def)
  have h1: "1 < length [Other 0 ''x'', Constant 1 \<lparr>shape = [2], elem_type = ''int64'', elems = [2, 3]\<rparr>]"
    by simp
  have h2: "[Other 0 ''x'', Constant 1 \<lparr>shape = [2], elem_type = ''int64'', elems = [2, 3]\<rparr>] ! 1
             = Constant 1 \<lparr>shape = [2], elem_type = ''int64'', elems = [2, 3]\<rparr>"
    by simp
  have h3: "ndim \<lparr>shape = [2], elem_type = ''int64'', elems = [2, 3]\<rparr> = 1"
    by (simp add: ndim_def)
  show ?thesis
    using reshape_rule[OF h1 h2 h3, where
        pre = "Call 2 dyn_reshape_op
          [Other 0 ''x'', Constant 1 \<lparr>shape = [2], elem_type = ''int64'', elems = [2, 3]\<rparr>]
          AttrsNull []" and c = 2 and attrs = AttrsNull and targs = "[]"
        and s = "\<lparr>next_ref = 4, out = [], memo = Map.empty\<rparr>"] m
    by simp
qed

text \<open>
  Claim C7.  A call to \<open>dyn.reshape\<close> or \<open>dyn.tile\<close> whose argument 1 is a constant
  that is not of rank 1 makes the rewrite fail with a failed check; the call is neither
  passed through nor rewritten.
\<close>

theorem rank_check_reshape_tile:
  assumes "f = dyn_reshape_op \<or> f = dyn_tile_op"
    and "1 < length args" and "args ! 1 = Constant r a" and "ndim a \<noteq> 1"
  shows "\<exists>msg. Rewrite_CallNode pre (Call c f args attrs targs) s = Inl (CheckFailed msg)"
  using assms
  by (auto simp: Rewrite_CallNode_def arg_at_def dyn_reshape_op_def dyn_tile_op_def)

theorem rank_check_witness:
  "\<exists>msg. Rewrite_CallNode
     (Call 2 dyn_tile_op
        [Other 0 ''x'', Constant 1 \<lparr>shape = [2, 2], elem_type = ''int64'', elems = [1, 2, 3, 4]\<rparr>]
        AttrsNull [])
     (Call 2 dyn_tile_op
        [Other 0 ''x'', Constant 1 \<lparr>shape = [2, 2], elem_type = ''int64'', elems = [1, 2, 3, 4]\<rparr>]
        AttrsNull [])
     \<lparr>next_ref = 3, out = [], memo = Map.empty\<rparr> = Inl (CheckFailed msg)"
  using rank_check_reshape_tile[where f = dyn_tile_op
      and args = "[Other 0 ''x'', Constant 1 \<lparr>shape = [2, 2], elem_type = ''int64'', elems = [1, 2, 3, 4]\<rparr>]"
      and r = 1 and a = "\<lparr>shape = [2, 2], elem_type = ''int64'', elems = [1, 2, 3, 4]\<rparr>"]
  by (simp add: ndim_def)

text \<open>
  Claim C8.  For a call to \<open>dyn.topk\<close> whose argument 1 is a constant: when the call's
  attributes are not \<open>TopKAttrs\<close> the rewrite fails with the failed check of line 64;
  when they are, and element 0 of the constant is read as \<open>v\<close>, the result is a new
  call to \<open>topk\<close> on argument 0 whose attributes are the original ones with \<open>k\<close> set to
  \<open>v\<close> (so \<open>axis\<close>, \<open>ret_type\<close>, \<open>is_ascend\<close> and \<open>dtype\<close> are copied).
\<close>

theorem topk_rule:
  assumes "1 < length args" and "args ! 1 = Constant r a"
  shows "(as_TopKAttrs attrs = None \<longrightarrow>
            Rewrite_CallNode pre (Call c dyn_topk_op args attrs targs) s = Inl (CheckFailed ''param''))
       \<and> (\<forall>param v. attrs = AttrsTopK param \<and> ToScalar a 0 = Inr v \<longrightarrow>
            Rewrite_CallNode pre (Call c dyn_topk_op args attrs targs) s =
              Inr (Call (next_ref s) ''topk'' [args ! 0] (AttrsTopK (param\<lparr>k := Some v\<rparr>)) [],
                   s\<lparr>next_ref := Suc (next_ref s), out := out s @ [v]\<rparr>))"
  using assms
  by (auto simp: Rewrite_CallNode_def arg_at_def new_Call_def
        dyn_reshape_op_def dyn_tile_op_def dyn_topk_op_def)

theorem topk_rule_witness:
  "Rewrite_CallNode
     (Call 2 dyn_topk_op
        [Other 0 ''x'', Constant 1 \<lparr>shape = [], elem_type = ''int64'', elems = [3]\<rparr>]
        AttrsNull [])
     (Call 2 dyn_topk_op
        [Other 0 ''x'', Constant 1 \<lparr>shape = [], elem_type = ''int64'', elems = [3]\<rparr>]
        AttrsNull [])
     \<lparr>next_ref = 3, out = [], memo = Map.empty\<rparr> = Inl (CheckFailed ''param'')
   \<and> Rewrite_CallNode
     (Call 2 dyn_topk_op
        [Other 0 ''x'', Constant 1 \<lparr>shape = [], elem_type = ''int64'', elems = [3]\<rparr>]
        (AttrsTopK \<lparr>k = None, axis = - 1, ret_type = ''both'', is_ascend = False, dtype = ''int32''\<rparr>) [])
     (Call 2 dyn_topk_op
        [Other 0 ''x'', Constant 1 \<lparr>shape = [], elem_type = ''int64'', elems = [3]\<rparr>]
        (AttrsTopK \<lparr>k = None, axis = - 1, ret_type = ''both'', is_ascend = False, dtype = ''int32''\<rparr>) [])
     \<lparr>next_ref = 3, out = [], memo = Map.empty\<rparr>
     = Inr (Call 3 ''topk'' [Other 0 ''x'']
              (AttrsTopK \<lparr>k = Some 3, axis = - 1, ret_type = ''both'', is_ascend = False, dtype = ''int32''\<rparr>) [],
            \<lparr>next_ref = 4, out = [3], memo = Map.empty\<rparr>)"
  using topk_rule[where
      args = "[Other 0 ''x'', Constant 1 \<lparr>shape = [], elem_type = ''int64'', elems = [3]\<rparr>]"
      and r = 1 and a = "\<lparr>shape = [], elem_type = ''int64'', elems = [3]\<rparr>"
      and attrs = AttrsNull
      and pre = "Call 2 dyn_topk_op
        [Other 0 ''x'', Constant 1 \<lparr>shape = [], elem_type = ''int64'', elems = [3]\<rparr>]
        AttrsNull []"
      and c = 2 and targs = "[]" and s = "\<lparr>next_ref = 3, out = [], memo = Map.empty\<rparr>"]
    topk_rule[where
      args = "[Other 0 ''x'', Constant 1 \<lparr>shape = [], elem_type = ''int64'', elems = [3]\<rparr>]"
      and r = 1 and a = "\<lparr>shape = [], elem_type = ''int64'', elems = [3]\<rparr>"
      and attrs = "AttrsTopK \<lparr>k = None, axis = - 1, ret_type = ''both'', is_ascend = False, dtype = ''int32''\<rparr>"
      and pre = "Call 2 dyn_topk_op
        [Other 0 ''x'', Constant 1 \<lparr>shape = [], elem_type = ''int64'', elems = [3]\<rparr>]
        (AttrsTopK \<lparr>k = None, axis = - 1, ret_type = ''both'', is_ascend = False, dtype = ''int32''\<rparr>) []"
      and c = 2 and targs = "[]" and s = "\<lparr>next_ref = 3, out = [], memo = Map.empty\<rparr>"]
  by (simp add: ToScalar_def)

text \<open>
  Claim C2 says that a constant \<open>k\<close> of rank other than 0 makes the \<open>dyn.topk\<close> rule
  fail with a failed check.  The rules for \<open>dyn.reshape\<close> and \<open>dyn.tile\<close> check the
  rank of their constant (lines 47 and 56); the rule of lines 61 to 74 has no check of
  \<open>ndim\<close>.  With a constant of rank 1 holding the single element 3 it does not fail:
  it fires and yields \<open>topk\<close> with \<open>k = 3\<close>.
\<close>

theorem topk_rank1_not_rejected:
  "ndim \<lparr>shape = [1], elem_type = ''int64'', elems = [3]\<rparr> = 1
   \<and> Rewrite_CallNode
     (Call 2 dyn_topk_op
        [Other 0 ''x'', Constant 1 \<lparr>shape = [1], elem_type = ''int64'', elems = [3]\<rparr>]
        (AttrsTopK \<lparr>k = None, axis = - 1, ret_type = ''both'', is_ascend = False, dtype = ''int32''\<rparr>) [])
     (Call 2 dyn_topk_op
        [Other 0 ''x'', Constant 1 \<lparr>shape = [1], elem_type = ''int64'', elems = [3]\<rparr>]
        (AttrsTopK \<lparr>k = None, axis = - 1, ret_type = ''both'', is_ascend = False, dtype = ''int32''\<rparr>) [])
     \<lparr>next_ref = 3, out = [], memo = Map.empty\<rparr>
     = Inr (Call 3 ''topk'' [Other 0 ''x'']
              (AttrsTopK \<lparr>k = Some 3, axis = - 1, ret_type = ''both'', is_ascend = False, dtype = ''int32''\<rparr>) [],
            \<lparr>next_ref = 4, out = [3], memo = Map.empty\<rparr>)"
  by (simp add: ndim_def Rewrite_CallNode_def arg_at_def new_Call_def ToScalar_def
        dyn_reshape_op_def dyn_tile_op_def dyn_topk_op_def)

text \<open>
  Claim C4.  For a call whose operator is \<open>dyn.reshape\<close>, \<open>dyn.tile\<close> or \<open>dyn.topk\<close> and
  whose argument 1 is not a constant, and for a call whose operator is none of the
  three, the hook returns the call it was given and leaves the state as it was: no node
  is allocated and nothing is written.
\<close>

theorem rule_does_not_fire:
  assumes "(is_dynamic_target f \<and> 1 < length args \<and> as_Constant (args ! 1) = None)
           \<or> \<not> is_dynamic_target f"
  shows "Rewrite_CallNode pre (Call c f args attrs targs) s = Inr (Call c f args attrs targs, s)"
proof (cases "is_dynamic_target f")
  case False
  then show ?thesis
    by (simp add: Rewrite_CallNode_def is_dynamic_target_def)
next
  case True
  with assms have a: "arg_at args (Suc 0) = Inr (args ! Suc 0)"
    and b: "as_Constant (args ! Suc 0) = None"
    by (simp_all add: arg_at_def)
  show ?thesis
    unfolding Rewrite_CallNode_def
    by (simp add: a b dyn_reshape_op_def dyn_tile_op_def dyn_topk_op_def)
qed

theorem rule_does_not_fire_witness:
  "Rewrite_CallNode
     (Call 2 dyn_reshape_op [Other 0 ''x'', Other 1 ''newshape''] AttrsNull [])
     (Call 2 dyn_reshape_op [Other 0 ''x'', Other 1 ''newshape''] AttrsNull [])
     \<lparr>next_ref = 3, out = [], memo = Map.empty\<rparr>
   = Inr (Call 2 dyn_reshape_op [Other 0 ''x'', Other 1 ''newshape''] AttrsNull [],
          \<lparr>next_ref = 3, out = [], memo = Map.empty\<rparr>)
   \<and> Rewrite_CallNode
     (Call 2 ''add'' [Other 0 ''x'', Other 1 ''y''] AttrsNull [])
     (Call 2 ''add'' [Other 0 ''x'', Other 1 ''y''] AttrsNull [])
     \<lparr>next_ref = 3, out = [], memo = Map.empty\<rparr>
   = Inr (Call 2 ''add'' [Other 0 ''x'', Other 1 ''y''] AttrsNull [],
          \<lparr>next_ref = 3, out = [], memo = Map.empty\<rparr>)"
  using rule_does_not_fire[where f = dyn_reshape_op and args = "[Other 0 ''x'', Other 1 ''newshape'']"
          and pre = "Call 2 dyn_reshape_op [Other 0 ''x'', Other 1 ''newshape''] AttrsNull []"
          and c = 2 and attrs = AttrsNull and targs = "[]"
          and s = "\<lparr>next_ref = 3, out = [], memo = Map.empty\<rparr>"]
        rule_does_not_fire[where f = "''add''" and args = "[Other 0 ''x'', Other 1 ''y'']"
          and pre = "Call 2 ''add'' [Other 0 ''x'', Other 1 ''y''] AttrsNull []"
          and c = 2 and attrs = AttrsNull and targs = "[]"
          and s = "\<lparr>next_ref = 3, out = [], memo = Map.empty\<rparr>"]
  by (simp add: is_dynamic_target_def dyn_reshape_op_def dyn_tile_op_def dyn_topk_op_def)

section \<open>The traversal's results\<close>

text \<open>
  Every node other than a function keeps its identity when nothing below it changed:
  an opaque node and a constant always, a call when its rewritten arguments are the
  same objects and no rule fires on it.
\<close>

lemma unchanged_node_kept:
  "DispatchVisitExpr (Other r n) s = Inr (Other r n, s)
   \<and> DispatchVisitExpr (Constant r a) s = Inr (Constant r a, s)
   \<and> (VisitList args s = Inr (args', s1) \<and> list_all2 same_ref args args'
        \<and> (\<not> is_dynamic_target f \<or> (1 < length args \<and> as_Constant (args ! 1) = None))
      \<longrightarrow> DispatchVisitExpr (Call r f args attrs targs) s = Inr (Call r f args attrs targs, s1))"
proof (intro conjI impI)
  show "DispatchVisitExpr (Other r n) s = Inr (Other r n, s)" by simp
  show "DispatchVisitExpr (Constant r a) s = Inr (Constant r a, s)" by simp
  assume h: "VisitList args s = Inr (args', s1) \<and> list_all2 same_ref args args'
        \<and> (\<not> is_dynamic_target f \<or> (1 < length args \<and> as_Constant (args ! 1) = None))"
  have "Rewrite_CallNode (Call r f args attrs targs) (Call r f args attrs targs) s1
               = Inr (Call r f args attrs targs, s1)"
  proof (cases "is_dynamic_target f")
    case False
    then show ?thesis
      by (simp add: Rewrite_CallNode_def is_dynamic_target_def)
  next
    case True
    with h have a: "arg_at args (Suc 0) = Inr (args ! Suc 0)"
      and b: "as_Constant (args ! Suc 0) = None"
      by (simp_all add: arg_at_def)
    show ?thesis
      unfolding Rewrite_CallNode_def
      by (simp add: a b dyn_reshape_op_def dyn_tile_op_def dyn_topk_op_def)
  qed
  with h show "DispatchVisitExpr (Call r f args attrs targs) s = Inr (Call r f args attrs targs, s1)"
    by simp
qed

text \<open>
  Claim C9 says that every visited node whose children are unchanged and on which no
  rule fires is returned itself.  The function at address 2 below has unchanged
  children, no dynamic call and no declared return type, so there is nothing to clear;
  the base class hands back the function itself, and the override of lines 80 to 82
  still returns a new function, at address 3.
\<close>

theorem function_rebuilt_unchanged:
  "MixedModeMutator_DispatchVisitExpr (specialized_fn 2) \<lparr>next_ref = 3, out = [], memo = Map.empty\<rparr>
   = Inr (specialized_fn 2,
          \<lparr>next_ref = 3, out = [],
            memo = [0 \<mapsto> Other 0 ''x'',
                    1 \<mapsto> Call 1 ''reshape'' [Other 0 ''x'']
                           (AttrsReshape \<lparr>newshape = [2, 3], reverse = False\<rparr>) []]\<rparr>)
   \<and> DispatchVisitExpr (specialized_fn 2) \<lparr>next_ref = 3, out = [], memo = Map.empty\<rparr>
   = Inr (specialized_fn 3,
          \<lparr>next_ref = 4, out = [],
            memo = [0 \<mapsto> Other 0 ''x'',
                    1 \<mapsto> Call 1 ''reshape'' [Other 0 ''x'']
                           (AttrsReshape \<lparr>newshape = [2, 3], reverse = False\<rparr>) []]\<rparr>)
   \<and> \<not> same_ref (specialized_fn 3) (specialized_fn 2)"
  by (simp add: specialized_fn_def same_ref_def new_Function_def
        Rewrite_CallNode_def dyn_reshape_op_def dyn_tile_op_def dyn_topk_op_def)

text \<open>
  Claim C6 says that a traversal writes nothing.  On \<open>fn (x) { dyn.topk(x, 3) }\<close> the
  statement of line 67 writes the value of \<open>k\<close> to standard output.
\<close>

theorem topk_rule_prints:
  "Mutate
     (Function 3 [Other 0 ''x'']
        (Call 2 dyn_topk_op
           [Other 0 ''x'', Constant 1 \<lparr>shape = [], elem_type = ''int64'', elems = [3]\<rparr>]
           (AttrsTopK \<lparr>k = None, axis = - 1, ret_type = ''both'', is_ascend = False, dtype = ''int32''\<rparr>) [])
        None [] AttrsNull)
     \<lparr>next_ref = 4, out = [], memo = Map.empty\<rparr>
   = Inr (Function 6 [Other 0 ''x'']
            (Call 4 ''topk'' [Other 0 ''x'']
               (AttrsTopK \<lparr>k = Some 3, axis = - 1, ret_type = ''both'', is_ascend = False, dtype = ''int32''\<rparr>) [])
            None [] AttrsNull,
          \<lparr>next_ref = 7, out = [3], memo = Map.empty\<rparr>)"
  by (simp add: Mutate_def same_ref_def new_Function_def new_Call_def arg_at_def ToScalar_def
        Rewrite_CallNode_def dyn_reshape_op_def dyn_tile_op_def dyn_topk_op_def)

section \<open>The driver's results\<close>

lemma reverse_vars_foldl:
  "foldl (\<lambda>vars (gv, fn). vars(ref_of fn \<mapsto> gv)) acc m r = None
     \<longleftrightarrow> acc r = None \<and> r \<notin> ref_of ` snd ` set m"
  by (induction m arbitrary: acc) (auto split: prod.splits)

text \<open>
  Claim C10.  When no function of the module is the same object as \<open>f\<close>, the lookup of
  line 100 fails and the entry point returns no function.
\<close>

theorem lookup_fails_outside_module:
  assumes "\<forall>p \<in> set m. \<not> same_ref (snd p) f"
  shows "DynamicToStatic infer_type fold_const f m s = Inl KeyError"
proof -
  have "ref_of f \<notin> ref_of ` snd ` set m"
    using assms by (auto simp: same_ref_def)
  then have "reverse_vars m (ref_of f) = None"
    by (simp add: reverse_vars_def reverse_vars_foldl)
  then show ?thesis
    by (simp add: DynamicToStatic_def DynamicToStatic_vars_def)
qed

theorem lookup_fails_witness:
  "DynamicToStatic pass_unchanged pass_unchanged (specialized_fn 5)
     [(''main'', specialized_fn 2)] \<lparr>next_ref = 6, out = [], memo = Map.empty\<rparr> = Inl KeyError"
  using lookup_fails_outside_module[where m = "[(''main'', specialized_fn 2)]"
          and f = "specialized_fn 5"]
  by (simp add: same_ref_def specialized_fn_def)

lemma loop_body_counter:
  "loop_body infer_type fold_const gv v = Inr v' \<Longrightarrow> lv_i v' = Suc (lv_i v)"
  by (auto simp: loop_body_def split: sum.splits option.splits if_splits prod.splits)

lemma loop_within_cap:
  assumes "lv_i v < 1000"
    and "\<forall>n \<le> 1000 - lv_i v. \<exists>vn. body_iterated it fc gv n v = Inr vn"
  shows "\<exists>n vn. DynamicToStatic_loop it fc gv v = Inr vn \<and> 1 \<le> n \<and> lv_i vn = lv_i v + n
           \<and> lv_i vn \<le> 1000 \<and> body_iterated it fc gv n v = Inr vn
           \<and> (same_ref (lv_pre vn) (lv_expr vn) \<or> lv_i vn = 1000)
           \<and> (\<forall>j. 1 \<le> j \<and> j < n \<longrightarrow>
                 (\<exists>vj. body_iterated it fc gv j v = Inr vj \<and> \<not> same_ref (lv_pre vj) (lv_expr vj)))"
  using assms
proof (induction "1000 - lv_i v" arbitrary: v)
  case 0
  then show ?case by simp
next
  case (Suc d)
  from Suc.prems(2) have "\<exists>vn. body_iterated it fc gv (Suc 0) v = Inr vn"
    using Suc.hyps(2) by (metis One_nat_def Suc_leI zero_less_Suc)
  then obtain v1 where b: "loop_body it fc gv v = Inr v1"
    by (auto split: sum.splits)
  have i1: "lv_i v1 = Suc (lv_i v)" using b by (rule loop_body_counter)
  have one: "body_iterated it fc gv (Suc 0) v = Inr v1" using b by simp
  show ?case
  proof (cases "\<not> same_ref (lv_pre v1) (lv_expr v1) \<and> lv_i v1 < 1000")
    case False
    then have "DynamicToStatic_loop it fc gv v = Inr v1"
      using b by (subst DynamicToStatic_loop.simps) auto
    moreover have "same_ref (lv_pre v1) (lv_expr v1) \<or> lv_i v1 = 1000"
      using False i1 Suc.prems(1) by auto
    ultimately show ?thesis
      using one i1 Suc.prems(1)
      by (intro exI[of _ "Suc 0"] exI[of _ v1]) auto
  next
    case True
    have d: "d = 1000 - lv_i v1" using Suc.hyps(2) i1 by simp
    have lt: "lv_i v1 < 1000" using True by simp
    have all: "\<forall>n \<le> 1000 - lv_i v1. \<exists>vn. body_iterated it fc gv n v1 = Inr vn"
    proof (intro allI impI)
      fix n assume "n \<le> 1000 - lv_i v1"
      then have "Suc n \<le> 1000 - lv_i v" using i1 lt by simp
      then obtain vn where "body_iterated it fc gv (Suc n) v = Inr vn"
        using Suc.prems(2) by blast
      then show "\<exists>vn. body_iterated it fc gv n v1 = Inr vn" using b by simp
    qed
    from Suc.hyps(1)[OF d lt all] obtain n vn where
      r: "DynamicToStatic_loop it fc gv v1 = Inr vn" "1 \<le> n" "lv_i vn = lv_i v1 + n"
         "lv_i vn \<le> 1000" "body_iterated it fc gv n v1 = Inr vn"
         "same_ref (lv_pre vn) (lv_expr vn) \<or> lv_i vn = 1000"
         "\<forall>j. 1 \<le> j \<and> j < n \<longrightarrow>
            (\<exists>vj. body_iterated it fc gv j v1 = Inr vj \<and> \<not> same_ref (lv_pre vj) (lv_expr vj))"
      by blast
    have l: "DynamicToStatic_loop it fc gv v = Inr vn"
      using b True r(1) by (subst DynamicToStatic_loop.simps) auto
    have e: "\<forall>j. 1 \<le> j \<and> j < Suc n \<longrightarrow>
            (\<exists>vj. body_iterated it fc gv j v = Inr vj \<and> \<not> same_ref (lv_pre vj) (lv_expr vj))"
    proof (intro allI impI)
      fix j assume j: "1 \<le> j \<and> j < Suc n"
      show "\<exists>vj. body_iterated it fc gv j v = Inr vj \<and> \<not> same_ref (lv_pre vj) (lv_expr vj)"
      proof (cases "j = 1")
        case True
        then show ?thesis using one \<open>\<not> same_ref (lv_pre v1) (lv_expr v1) \<and> lv_i v1 < 1000\<close> by auto
      next
        case False
        then obtain j' where j': "j = Suc j'" "1 \<le> j'" "j' < n"
          using j by (cases j) auto
        then obtain vj where "body_iterated it fc gv j' v1 = Inr vj"
          "\<not> same_ref (lv_pre vj) (lv_expr vj)" using r(7) by blast
        then show ?thesis using j'(1) b by auto
      qed
    qed
    show ?thesis
      using l r(2-6) i1 b e
      by (intro exI[of _ "Suc n"] exI[of _ vn]) auto
  qed
qed

lemma Mutate_specialized:
  "Mutate (specialized_fn r) s =
     Inr (specialized_fn (next_ref s), s\<lparr>next_ref := Suc (next_ref s), memo := Map.empty\<rparr>)"
  by (simp add: Mutate_def specialized_fn_def same_ref_def new_Function_def
        Rewrite_CallNode_def dyn_reshape_op_def dyn_tile_op_def dyn_topk_op_def)

lemma loop_body_specialized:
  assumes "lv_expr v = specialized_fn r" and "lv_mod v = [(''main'', specialized_fn r)]"
  shows "loop_body pass_unchanged pass_unchanged ''main'' v =
           Inr \<lparr>lv_pre = specialized_fn r,
                lv_expr = specialized_fn (next_ref (lv_state v)),
                lv_mod = [(''main'', specialized_fn (next_ref (lv_state v)))],
                lv_i = lv_i v + 1,
                lv_state = (lv_state v)\<lparr>next_ref := Suc (next_ref (lv_state v)), memo := Map.empty\<rparr>\<rparr>"
  using assms
  by (simp add: loop_body_def pass_unchanged_def Mutate_specialized)
     (simp add: specialized_fn_def)

lemma body_iterated_specialized:
  assumes "lv_expr v = specialized_fn r" and "lv_mod v = [(''main'', specialized_fn r)]"
  shows "\<exists>vn. body_iterated pass_unchanged pass_unchanged ''main'' n v = Inr vn"
  using assms
proof (induction n arbitrary: v r)
  case 0
  then show ?case by simp
next
  case (Suc n)
  show ?case
    using Suc.IH[of _ "next_ref (lv_state v)"] loop_body_specialized[OF Suc.prems]
    by simp
qed

text \<open>
  Claim C3.  When \<open>f\<close> is in the module and no round fails, the driver returns an
  expression after \<open>n\<close> rounds with \<open>1 \<le> n \<le> 1000\<close>: its result is that of running the
  loop body \<open>n\<close> times; at round \<open>n\<close> the result is the same object as the result of
  the round before or \<open>n\<close> is 1000; and at no earlier round was the result the same
  object as the one before.  The loop is a total function, so the driver always
  terminates.
\<close>

theorem driver_stops_within_cap:
  assumes "reverse_vars m (ref_of f) = Some gv"
    and "\<forall>n \<le> 1000. \<exists>vn. body_iterated infer_type fold_const gv n
            \<lparr>lv_pre = f, lv_expr = f, lv_mod = m, lv_i = 0, lv_state = s\<rparr> = Inr vn"
  shows "\<exists>n vn. DynamicToStatic_vars infer_type fold_const f m s = Inr vn
           \<and> DynamicToStatic infer_type fold_const f m s = Inr (lv_expr vn, lv_state vn)
           \<and> lv_i vn = n \<and> 1 \<le> n \<and> n \<le> 1000
           \<and> body_iterated infer_type fold_const gv n
                \<lparr>lv_pre = f, lv_expr = f, lv_mod = m, lv_i = 0, lv_state = s\<rparr> = Inr vn
           \<and> (same_ref (lv_pre vn) (lv_expr vn) \<or> n = 1000)
           \<and> (\<forall>j. 1 \<le> j \<and> j < n \<longrightarrow>
                 (\<exists>vj. body_iterated infer_type fold_const gv j
                         \<lparr>lv_pre = f, lv_expr = f, lv_mod = m, lv_i = 0, lv_state = s\<rparr> = Inr vj
                       \<and> \<not> same_ref (lv_pre vj) (lv_expr vj)))"
proof -
  define v0 where "v0 = \<lparr>lv_pre = f, lv_expr = f, lv_mod = m, lv_i = 0, lv_state = s\<rparr>"
  have i0: "lv_i v0 < 1000" by (simp add: v0_def)
  have all: "\<forall>n \<le> 1000 - lv_i v0. \<exists>vn. body_iterated infer_type fold_const gv n v0 = Inr vn"
    using assms(2) by (simp add: v0_def)
  from loop_within_cap[OF i0 all] obtain n vn where
    r: "DynamicToStatic_loop infer_type fold_const gv v0 = Inr vn" "1 \<le> n"
       "lv_i vn = lv_i v0 + n" "lv_i vn \<le> 1000"
       "body_iterated infer_type fold_const gv n v0 = Inr vn"
       "same_ref (lv_pre vn) (lv_expr vn) \<or> lv_i vn = 1000"
       "\<forall>j. 1 \<le> j \<and> j < n \<longrightarrow>
          (\<exists>vj. body_iterated infer_type fold_const gv j v0 = Inr vj
                \<and> \<not> same_ref (lv_pre vj) (lv_expr vj))"
    by blast
  have n: "lv_i vn = n" using r(3) by (simp add: v0_def)
  have d: "DynamicToStatic_vars infer_type fold_const f m s = Inr vn"
    using assms(1) r(1) by (simp add: DynamicToStatic_vars_def v0_def)
  have "DynamicToStatic infer_type fold_const f m s = Inr (lv_expr vn, lv_state vn)"
    using d by (simp add: DynamicToStatic_def)
  with d n r show ?thesis
    unfolding v0_def by (intro exI[of _ n] exI[of _ vn]) simp
qed

theorem driver_stops_within_cap_witness:
  "\<exists>n vn. DynamicToStatic_vars pass_unchanged pass_unchanged (specialized_fn 2)
             [(''main'', specialized_fn 2)] \<lparr>next_ref = 3, out = [], memo = Map.empty\<rparr> = Inr vn
         \<and> DynamicToStatic pass_unchanged pass_unchanged (specialized_fn 2)
             [(''main'', specialized_fn 2)] \<lparr>next_ref = 3, out = [], memo = Map.empty\<rparr>
           = Inr (lv_expr vn, lv_state vn)
         \<and> lv_i vn = n \<and> 1 \<le> n \<and> n \<le> 1000
         \<and> (same_ref (lv_pre vn) (lv_expr vn) \<or> n = 1000)"
proof -
  have rv: "reverse_vars [(''main'', specialized_fn 2)] (ref_of (specialized_fn 2)) = Some ''main''"
    by (simp add: reverse_vars_def)
  have all: "\<forall>n \<le> 1000. \<exists>vn. body_iterated pass_unchanged pass_unchanged ''main'' n
            \<lparr>lv_pre = specialized_fn 2, lv_expr = specialized_fn 2,
             lv_mod = [(''main'', specialized_fn 2)], lv_i = 0,
             lv_state = \<lparr>next_ref = 3, out = [], memo = Map.empty\<rparr>\<rparr> = Inr vn"
    by (intro allI impI body_iterated_specialized[where r = 2]) simp_all
  show ?thesis
    using driver_stops_within_cap[OF rv all] by blast
qed

text \<open>
  Allocation only moves the allocator forward, and a function the traversal returns is
  always the one constructed at line 81, at an address that was unused when the
  traversal began.  Hence, when the passes do not move the allocator backwards and the
  address of \<open>f\<close> is in use, no round's result is the same object as the result before
  it, and the driver can only return with the round counter at 1000.
\<close>

lemma Rewrite_CallNode_next_ref:
  "Rewrite_CallNode pre post s = Inr (r, s') \<Longrightarrow> next_ref s \<le> next_ref s'"
  by (auto simp: Rewrite_CallNode_def new_Call_def Let_def
           split: Expr.splits if_splits sum.splits option.splits)

lemma traversal_next_ref:
  "(\<forall>r s'. VisitExpr e s = Inr (r, s') \<longrightarrow> next_ref s \<le> next_ref s')"
  "(\<forall>r s'. DispatchVisitExpr e1 s1 = Inr (r, s') \<longrightarrow> next_ref s1 \<le> next_ref s')"
  "(\<forall>r s'. MixedModeMutator_DispatchVisitExpr e2 s2 = Inr (r, s') \<longrightarrow> next_ref s2 \<le> next_ref s')"
  "(\<forall>rs s'. VisitList es s3 = Inr (rs, s') \<longrightarrow> next_ref s3 \<le> next_ref s')"
proof (induction e s and e1 s1 and e2 s2 and es s3
       rule: VisitExpr_DispatchVisitExpr_MixedModeMutator_DispatchVisitExpr_VisitList.induct)
  case (1 e s)
  then show ?case
    by (auto split: option.splits sum.splits prod.splits)
next
  case (2 e s)
  then show ?case
    by (auto simp: new_Function_def split: sum.splits prod.splits Expr.splits)
next
  case (3 r n s)
  then show ?case by simp
next
  case (4 r a s)
  then show ?case by simp
next
  case (5 r f args attrs targs s)
  then show ?case
    by (auto simp: new_Call_def split: sum.splits prod.splits if_splits
             dest!: Rewrite_CallNode_next_ref)
next
  case (6 r ps b rt tps attrs s)
  then show ?case
    by (fastforce simp: new_Function_def split: sum.splits prod.splits if_splits)
next
  case (7 s)
  then show ?case by simp
next
  case (8 e es s)
  then show ?case
    by (fastforce split: sum.splits prod.splits)
qed

lemma Mutate_Function_fresh:
  assumes "Mutate (Function fr ps b rt tps fattrs) s = Inr (e', s')"
  shows "next_ref s \<le> ref_of e' \<and> ref_of e' < next_ref s'"
proof -
  from assms obtain post s1 where
    b: "MixedModeMutator_DispatchVisitExpr (Function fr ps b rt tps fattrs) (s\<lparr>memo := Map.empty\<rparr>)
          = Inr (post, s1)"
    by (auto simp: Mutate_def split: sum.splits prod.splits)
  have m: "next_ref s \<le> next_ref s1"
    using traversal_next_ref(3)[of "Function fr ps b rt tps fattrs" "s\<lparr>memo := Map.empty\<rparr>"] b
    by auto
  have "is_Function post"
    using b by (auto simp: new_Function_def split: sum.splits prod.splits if_splits)
  then show ?thesis
    using assms b m
    by (cases post) (auto simp: Mutate_def new_Function_def split: sum.splits prod.splits)
qed

lemma DispatchVisitExpr_Function_fresh:
  assumes "DispatchVisitExpr e s = Inr (e', s')" and "is_Function e'"
  shows "next_ref s \<le> ref_of e' \<and> ref_of e' < next_ref s'"
proof -
  from assms(1) obtain post s1 where
    b: "MixedModeMutator_DispatchVisitExpr e s = Inr (post, s1)"
    by (auto split: sum.splits prod.splits)
  have m: "next_ref s \<le> next_ref s1"
    using traversal_next_ref(3)[of e s] b by auto
  show ?thesis
    using assms b m
    by (cases post) (auto simp: new_Function_def split: sum.splits prod.splits)
qed

lemma Mutate_result_fresh:
  assumes "Mutate e s = Inr (e', s')" and "is_Function e'"
  shows "next_ref s \<le> ref_of e' \<and> ref_of e' < next_ref s'"
proof -
  from assms(1) obtain s1 where
    d: "DispatchVisitExpr e (s\<lparr>memo := Map.empty\<rparr>) = Inr (e', s1)"
    and s': "next_ref s' = next_ref s1"
    by (auto simp: Mutate_def split: sum.splits prod.splits)
  from DispatchVisitExpr_Function_fresh[OF d assms(2)] s' show ?thesis by simp
qed

lemma loop_body_result_fresh:
  assumes it: "\<And>m s m' s'. infer_type m s = Inr (m', s') \<Longrightarrow> next_ref s \<le> next_ref s'"
    and fc: "\<And>m s m' s'. fold_const m s = Inr (m', s') \<Longrightarrow> next_ref s \<le> next_ref s'"
    and b: "loop_body infer_type fold_const gv v = Inr v'"
    and lt: "ref_of (lv_expr v) < next_ref (lv_state v)"
  shows "\<not> same_ref (lv_pre v') (lv_expr v') \<and> ref_of (lv_expr v') < next_ref (lv_state v')"
proof -
  from b obtain m1 s1 m2 s2 fn e s3 where
    1: "infer_type (lv_mod v) (lv_state v) = Inr (m1, s1)"
    and 2: "fold_const m1 s1 = Inr (m2, s2)"
    and 3: "Mutate fn s2 = Inr (e, s3)" "is_Function e"
    and 4: "lv_pre v' = lv_expr v" "lv_expr v' = e" "lv_state v' = s3"
    by (auto simp: loop_body_def split: sum.splits option.splits prod.splits if_splits)
  from it[OF 1] fc[OF 2] Mutate_result_fresh[OF 3] lt 4 show ?thesis
    by (simp add: same_ref_def)
qed

lemma loop_never_converges:
  assumes it: "\<And>m s m' s'. infer_type m s = Inr (m', s') \<Longrightarrow> next_ref s \<le> next_ref s'"
    and fc: "\<And>m s m' s'. fold_const m s = Inr (m', s') \<Longrightarrow> next_ref s \<le> next_ref s'"
    and "lv_i v < 1000"
    and "ref_of (lv_expr v) < next_ref (lv_state v)"
    and "DynamicToStatic_loop infer_type fold_const gv v = Inr vf"
  shows "lv_i vf = 1000 \<and> \<not> same_ref (lv_pre vf) (lv_expr vf)"
  using assms(3-5)
proof (induction "1000 - lv_i v" arbitrary: v)
  case 0
  then show ?case by simp
next
  case (Suc d)
  from Suc.prems(3) obtain v1 where b: "loop_body infer_type fold_const gv v = Inr v1"
    by (subst (asm) DynamicToStatic_loop.simps) (auto split: sum.splits)
  have i1: "lv_i v1 = Suc (lv_i v)" using b by (rule loop_body_counter)
  from loop_body_result_fresh[OF it fc b Suc.prems(2)]
  have ne: "\<not> same_ref (lv_pre v1) (lv_expr v1)"
    and fr: "ref_of (lv_expr v1) < next_ref (lv_state v1)" by simp_all
  show ?case
  proof (cases "lv_i v1 < 1000")
    case False
    then have "DynamicToStatic_loop infer_type fold_const gv v = Inr v1"
      using b by (subst DynamicToStatic_loop.simps) simp
    with Suc.prems(3) have "vf = v1" by simp
    with False i1 Suc.prems(1) ne show ?thesis by simp
  next
    case True
    have "DynamicToStatic_loop infer_type fold_const gv v
            = DynamicToStatic_loop infer_type fold_const gv v1"
      using b True ne by (subst DynamicToStatic_loop.simps) simp
    with Suc.prems(3) have l: "DynamicToStatic_loop infer_type fold_const gv v1 = Inr vf" by simp
    have d: "d = 1000 - lv_i v1" using Suc.hyps(2) i1 by simp
    from Suc.hyps(1)[OF d True fr l] show ?thesis .
  qed
qed

lemma driver_never_converges:
  assumes "\<And>m s m' s'. infer_type m s = Inr (m', s') \<Longrightarrow> next_ref s \<le> next_ref s'"
    and "\<And>m s m' s'. fold_const m s = Inr (m', s') \<Longrightarrow> next_ref s \<le> next_ref s'"
    and "ref_of f < next_ref s"
    and "DynamicToStatic_vars infer_type fold_const f m s = Inr vf"
  shows "lv_i vf = 1000 \<and> \<not> same_ref (lv_pre vf) (lv_expr vf)"
proof -
  from assms(4) obtain gv where
    "DynamicToStatic_loop infer_type fold_const gv
       \<lparr>lv_pre = f, lv_expr = f, lv_mod = m, lv_i = 0, lv_state = s\<rparr> = Inr vf"
    by (auto simp: DynamicToStatic_vars_def split: option.splits)
  then show ?thesis
    using assms(3) by (intro loop_never_converges[OF assms(1,2)]) simp_all
qed

lemma loop_specialized:
  assumes "lv_i v < 1000" and "lv_expr v = specialized_fn r"
    and "lv_mod v = [(''main'', specialized_fn r)]" and "r < next_ref (lv_state v)"
  shows "\<exists>vf. DynamicToStatic_loop pass_unchanged pass_unchanged ''main'' v = Inr vf
           \<and> lv_i vf = 1000
           \<and> lv_expr vf = specialized_fn (next_ref (lv_state v) + 999 - lv_i v)
           \<and> \<not> same_ref (lv_pre vf) (lv_expr vf)"
  using assms
proof (induction "1000 - lv_i v" arbitrary: v r)
  case 0
  then show ?case by simp
next
  case (Suc d)
  define v1 where "v1 = \<lparr>lv_pre = specialized_fn r,
                lv_expr = specialized_fn (next_ref (lv_state v)),
                lv_mod = [(''main'', specialized_fn (next_ref (lv_state v)))],
                lv_i = lv_i v + 1,
                lv_state = (lv_state v)\<lparr>next_ref := Suc (next_ref (lv_state v)), memo := Map.empty\<rparr>\<rparr>"
  have b: "loop_body pass_unchanged pass_unchanged ''main'' v = Inr v1"
    unfolding v1_def using Suc.prems(2,3) by (rule loop_body_specialized)
  have ne: "\<not> same_ref (lv_pre v1) (lv_expr v1)"
    using Suc.prems(4) by (simp add: v1_def same_ref_def specialized_fn_def)
  show ?case
  proof (cases "lv_i v1 < 1000")
    case False
    then have i: "lv_i v = 999" using Suc.prems(1) by (simp add: v1_def)
    have "DynamicToStatic_loop pass_unchanged pass_unchanged ''main'' v = Inr v1"
      using b False by (subst DynamicToStatic_loop.simps) simp
    then show ?thesis using ne i by (simp add: v1_def)
  next
    case True
    have "\<exists>vf. DynamicToStatic_loop pass_unchanged pass_unchanged ''main'' v1 = Inr vf
           \<and> lv_i vf = 1000
           \<and> lv_expr vf = specialized_fn (next_ref (lv_state v1) + 999 - lv_i v1)
           \<and> \<not> same_ref (lv_pre vf) (lv_expr vf)"
      using Suc.hyps(2) True
      by (intro Suc.hyps(1)[of v1 "next_ref (lv_state v)"]) (simp_all add: v1_def)
    moreover have "DynamicToStatic_loop pass_unchanged pass_unchanged ''main'' v
                 = DynamicToStatic_loop pass_unchanged pass_unchanged ''main'' v1"
      using b True ne by (subst DynamicToStatic_loop.simps) simp
    moreover have "next_ref (lv_state v1) + 999 - lv_i v1 = next_ref (lv_state v) + 999 - lv_i v"
      by (simp add: v1_def)
    ultimately show ?thesis by simp
  qed
qed

text \<open>
  Claim C5 says that an already specialized function converges in one round.  With
  \<open>fn (x) { reshape(x, newshape=[2, 3]) }\<close> as the only function of the module and
  passes that change nothing, the first round already returns a new function object
  (line 81), so the test \<open>pre != expr\<close> never fails: the loop leaves with the round
  counter at 1000 and returns the function allocated in the last round.
\<close>

theorem specialized_runs_all_rounds:
  "\<exists>v. DynamicToStatic_vars pass_unchanged pass_unchanged (specialized_fn 2)
          [(''main'', specialized_fn 2)] \<lparr>next_ref = 3, out = [], memo = Map.empty\<rparr> = Inr v
       \<and> lv_i v = 1000 \<and> lv_expr v = specialized_fn 1002
       \<and> \<not> same_ref (lv_pre v) (lv_expr v)
       \<and> \<not> same_ref (specialized_fn 2) (lv_expr v)"
proof -
  have rv: "reverse_vars [(''main'', specialized_fn 2)] (ref_of (specialized_fn 2)) = Some ''main''"
    by (simp add: reverse_vars_def)
  obtain vf where "DynamicToStatic_loop pass_unchanged pass_unchanged ''main''
            \<lparr>lv_pre = specialized_fn 2, lv_expr = specialized_fn 2,
             lv_mod = [(''main'', specialized_fn 2)], lv_i = 0,
             lv_state = \<lparr>next_ref = 3, out = [], memo = Map.empty\<rparr>\<rparr> = Inr vf"
     "lv_i vf = 1000" "lv_expr vf = specialized_fn 1002" "\<not> same_ref (lv_pre vf) (lv_expr vf)"
    using loop_specialized[of "\<lparr>lv_pre = specialized_fn 2, lv_expr = specialized_fn 2,
             lv_mod = [(''main'', specialized_fn 2)], lv_i = 0,
             lv_state = \<lparr>next_ref = 3, out = [], memo = Map.empty\<rparr>\<rparr>" 2]
    by auto
  then show ?thesis
    by (simp add: DynamicToStatic_vars_def rv) (simp add: same_ref_def specialized_fn_def)
qed

end
